theory Spec2Isabelle
  imports Complex_Main
begin

section \<open>The landing page component (src/Root.tsx)\<close>

text \<open>
  The component \<open>Root\<close> keeps six independent pieces of React state (\<open>isMenuOpen\<close>,
  \<open>lumeStars\<close>, \<open>isScrolled\<close>, \<open>isInitialized\<close>, \<open>showVideo\<close>, \<open>isDarkMode\<close>) and touches
  the browser through \<open>localStorage\<close>, the class list of the document root, \<open>fetch\<close>,
  timers and DOM events. Each controller is embedded with the state it reads and writes:
  a record for the state, a function from state to state for every handler, a sum type
  where the source can throw.
\<close>

subsection \<open>Numbers and their decimal rendering\<close>

text \<open>
  A star count is a JavaScript number holding an integer. The embedding uses \<open>int\<close> for
  the count and exact rational arithmetic for \<open>count / 100\<close> and \<open>roundedCount / 1000\<close>.
  The double-precision operations of the source agree with the exact ones for every
  count up to \<open>Number.MAX_SAFE_INTEGER\<close>; larger counts are outside the embedding.
\<close>

definition MAX_SAFE_INTEGER :: int where
  "MAX_SAFE_INTEGER = 2 ^ 53 - 1"

definition digit_char :: "nat \<Rightarrow> char" where
  "digit_char d = ''0123456789'' ! d"

text \<open>\<open>Number.prototype.toString\<close> on a non-negative integer: its decimal digits.\<close>

fun nat_toString :: "nat \<Rightarrow> string" where
  "nat_toString n =
     (if n < 10 then [digit_char n]
      else nat_toString (n div 10) @ [digit_char (n mod 10)])"

declare nat_toString.simps [simp del]

text \<open>\<open>count.toString()\<close> on an integer: a minus sign for a negative one.\<close>

definition number_toString :: "int \<Rightarrow> string" where
  "number_toString i =
     (if i < 0 then ''-'' @ nat_toString (nat (- i)) else nat_toString (nat i))"

text \<open>The value a decimal digit string denotes (used to read renderings back).\<close>

definition digit_value :: "char \<Rightarrow> nat" where
  "digit_value c = of_char c - 48"

definition decimal_value :: "string \<Rightarrow> nat" where
  "decimal_value s = foldl (\<lambda>a c. 10 * a + digit_value c) 0 s"

text \<open>\<open>Math.round\<close>: the nearest integer, a tie going up.\<close>

definition Math_round :: "rat \<Rightarrow> int" where
  "Math_round x = \<lfloor>x + 1 / 2\<rfloor>"

text \<open>
  \<open>x.toFixed(1)\<close> for \<open>\<bar>x\<bar> < 10^21\<close>, after the language specification: \<open>n\<close> is the integer
  with \<open>n / 10\<close> closest to \<open>x\<close> (the larger one on a tie), its digits are padded with
  zeros to at least two, and the point goes before the last digit.
\<close>

definition toFixed1 :: "rat \<Rightarrow> string" where
  "toFixed1 x =
     (let s = (if x < 0 then ''-'' else '''');
          y = \<bar>x\<bar>;
          n = nat \<lfloor>y * 10 + 1 / 2\<rfloor>;
          m = nat_toString n;
          m' = (if length m \<le> 1 then replicate (2 - length m) CHR ''0'' @ m else m);
          k = length m'
      in s @ take (k - 1) m' @ ''.'' @ drop (k - 1) m')"

text \<open>\<open>s.replace(/\.0$/, '')\<close>: a \<open>.0\<close> at the very end of the string is removed.\<close>

definition replace_dot0 :: "string \<Rightarrow> string" where
  "replace_dot0 s =
     (let k = length s
      in if 2 \<le> k \<and> drop (k - 2) s = ''.0'' then take (k - 2) s else s)"

text \<open>\<open>formatStarCount\<close> (Root.tsx, lines 4 to 12); \<open>None\<close> is \<open>null\<close>.\<close>

definition formatStarCount :: "int option \<Rightarrow> string" where
  "formatStarCount count =
     (case count of
        None \<Rightarrow> ''0''
      | Some c \<Rightarrow>
          if c \<ge> 1000 then
            (let roundedCount = Math_round (of_int c / 100) * 100
             in replace_dot0 (toFixed1 (of_int roundedCount / 1000)) @ ''k'')
          else number_toString c)"

subsection \<open>ThemeController\<close>

text \<open>
  \<open>localStorage\<close> is a map from keys to strings (\<open>getItem\<close> yields \<open>null\<close>, here \<open>None\<close>,
  for an absent key); \<open>classList\<close> is the token list of \<open>document.documentElement\<close>.
\<close>

type_synonym storage = "string \<rightharpoonup> string"

definition getItem :: "storage \<Rightarrow> string \<Rightarrow> string option" where
  "getItem st k = st k"

definition setItem :: "storage \<Rightarrow> string \<Rightarrow> string \<Rightarrow> storage" where
  "setItem st k v = st(k \<mapsto> v)"

definition classList_add :: "string list \<Rightarrow> string \<Rightarrow> string list" where
  "classList_add cl c = (if c \<in> set cl then cl else cl @ [c])"

definition classList_remove :: "string list \<Rightarrow> string \<Rightarrow> string list" where
  "classList_remove cl c = removeAll c cl"

definition classList_toggle :: "string list \<Rightarrow> string \<Rightarrow> string list" where
  "classList_toggle cl c = (if c \<in> set cl then removeAll c cl else cl @ [c])"

record theme_state =
  isDarkMode :: bool
  localStorage :: storage
  classList :: "string list"
  html_backgroundColor :: string
  body_backgroundColor :: string

text \<open>The initializer of \<open>isDarkMode\<close> (lines 29 to 33): \<open>savedTheme === 'dark'\<close>.\<close>

definition initialIsDarkMode :: "storage \<Rightarrow> bool" where
  "initialIsDarkMode st = (let savedTheme = getItem st ''theme'' in savedTheme = Some ''dark'')"

text \<open>\<open>toggleTheme\<close> (lines 36 to 45): the updater passed to \<open>setIsDarkMode\<close>.\<close>

definition toggleTheme :: "theme_state \<Rightarrow> theme_state" where
  "toggleTheme s =
     (let newTheme = \<not> isDarkMode s
      in s\<lparr>localStorage := setItem (localStorage s) ''theme'' (if newTheme then ''dark'' else ''light''),
           classList := classList_toggle (classList s) ''dark'',
           isDarkMode := newTheme\<rparr>)"

text \<open>The effect that follows every change of \<open>isDarkMode\<close> (lines 48 to 58).\<close>

definition themeEffect :: "theme_state \<Rightarrow> theme_state" where
  "themeEffect s =
     (if isDarkMode s then
        s\<lparr>classList := classList_add (classList s) ''dark'',
          html_backgroundColor := ''#171717'',
          body_backgroundColor := ''#171717''\<rparr>
      else
        s\<lparr>classList := classList_remove (classList s) ''dark'',
          html_backgroundColor := ''white'',
          body_backgroundColor := ''white''\<rparr>)"

subsection \<open>StarCountFetcher\<close>

text \<open>
  A parsed JSON payload. Numbers are the integers (the field read is an integer count);
  an object is the list of its own properties.
\<close>

datatype json =
    JNull
  | JBool bool
  | JNumber int
  | JString string
  | JArray "json list"
  | JObject "(string \<times> json) list"

text \<open>\<open>!data\<close>: the values JavaScript treats as false.\<close>

fun falsy :: "json \<Rightarrow> bool" where
  "falsy JNull = True"
| "falsy (JBool b) = (\<not> b)"
| "falsy (JNumber n) = (n = 0)"
| "falsy (JString s) = (s = [])"
| "falsy (JArray xs) = False"
| "falsy (JObject kvs) = False"

text \<open>\<open>data.k\<close> on a value that is not \<open>null\<close>; \<open>None\<close> is \<open>undefined\<close>.\<close>

fun get_property :: "json \<Rightarrow> string \<Rightarrow> json option" where
  "get_property (JObject kvs) k = map_of kvs k"
| "get_property other k = None"

fun typeof :: "json option \<Rightarrow> string" where
  "typeof None = ''undefined''"
| "typeof (Some JNull) = ''object''"
| "typeof (Some (JBool b)) = ''boolean''"
| "typeof (Some (JNumber n)) = ''number''"
| "typeof (Some (JString s)) = ''string''"
| "typeof (Some (JArray xs)) = ''object''"
| "typeof (Some (JObject kvs)) = ''object''"

text \<open>
  What \<open>fetch\<close> hands back: the promise rejects (no response), or it resolves with a
  response whose body may fail to parse (\<open>json_body = None\<close>: \<open>response.json()\<close> rejects).
\<close>

record response =
  status :: nat
  json_body :: "json option"

definition response_ok :: "response \<Rightarrow> bool" where
  "response_ok r = (200 \<le> status r \<and> status r \<le> 299)"

datatype fetch_outcome = Rejected | Resolved response

datatype js_error = NetworkError | JsonSyntaxError

datatype console_entry = ConsoleLog string | ConsoleError string

record star_state =
  lumeStars :: "int option"
  console :: "console_entry list"

definition console_log :: "string \<Rightarrow> star_state \<Rightarrow> star_state" where
  "console_log msg s = s\<lparr>console := console s @ [ConsoleLog msg]\<rparr>"

definition console_error :: "string \<Rightarrow> star_state \<Rightarrow> star_state" where
  "console_error msg s = s\<lparr>console := console s @ [ConsoleError msg]\<rparr>"

text \<open>
  The body of the \<open>try\<close> block of \<open>fetchStars\<close> (lines 64 to 89). \<open>Inl (e, s)\<close> is error
  \<open>e\<close> thrown in state \<open>s\<close>; \<open>Inr s\<close> is a normal completion (a \<open>return\<close> included).
\<close>

definition fetchStars_try :: "fetch_outcome \<Rightarrow> star_state \<Rightarrow> (js_error \<times> star_state) + star_state" where
  "fetchStars_try outcome s =
     (let s1 = console_log ''Fetching GitHub stars...'' s
      in case outcome of
           Rejected \<Rightarrow> Inl (NetworkError, s1)
         | Resolved r \<Rightarrow>
             if \<not> response_ok r then Inr (console_error ''GitHub API error:'' s1)
             else
               (case json_body r of
                  None \<Rightarrow> Inl (JsonSyntaxError, s1)
                | Some data \<Rightarrow>
                    (let s2 = console_log ''GitHub API response:'' s1
                     in if falsy data \<or> typeof (get_property data ''stargazers_count'') \<noteq> ''number''
                        then Inr (console_error ''Invalid GitHub API response:'' s2)
                        else
                          (case get_property data ''stargazers_count'' of
                             Some (JNumber n) \<Rightarrow> Inr (s2\<lparr>lumeStars := Some n\<rparr>)
                           | _ \<Rightarrow> Inr s2))))"

text \<open>\<open>fetchStars\<close> (lines 62 to 97): the \<open>try\<close> block under its \<open>catch\<close>.\<close>

definition fetchStars :: "fetch_outcome \<Rightarrow> star_state \<Rightarrow> (js_error \<times> star_state) + star_state" where
  "fetchStars outcome s =
     (case fetchStars_try outcome s of
        Inl (e, s') \<Rightarrow> Inr (console_error ''Error fetching GitHub stars:'' s')
      | Inr s' \<Rightarrow> Inr s')"

text \<open>The state the component mounts with: \<open>useState<number | null>(null)\<close>.\<close>

definition initial_star_state :: star_state where
  "initial_star_state = \<lparr>lumeStars = None, console = []\<rparr>"

text \<open>
  What the page renders of the star count. The two links to the repository (lines 191
  to 202 in the header, lines 236 to 246 in the mobile menu) have two children, the
  icons \<open>Github\<close> and \<open>Star\<close>, and no text. No expression of the JSX reads \<open>lumeStars\<close>
  or calls \<open>formatStarCount\<close>: the state is written at line 89 and read nowhere.
\<close>

datatype jsx_node = Icon string | TextNode string

definition githubLink_children :: "star_state \<Rightarrow> jsx_node list" where
  "githubLink_children s = [Icon ''Github'', Icon ''Star'']"

definition displayed_text :: "jsx_node list \<Rightarrow> string list" where
  "displayed_text ns = concat (map (\<lambda>n. case n of Icon i \<Rightarrow> [] | TextNode t \<Rightarrow> [t]) ns)"

text \<open>The count the page displays: the text of the link, if it has any.\<close>

definition displayed_count :: "star_state \<Rightarrow> string option" where
  "displayed_count s =
     (case displayed_text (githubLink_children s) of [] \<Rightarrow> None | t # ts \<Rightarrow> Some t)"

text \<open>
  The failing outcomes, in the words of the specification: a network failure, a
  non-success status, or a payload (if it parses at all) whose field \<open>stargazers_count\<close>
  is missing or not a number.
\<close>

definition stargazers_field :: "json \<Rightarrow> json option" where
  "stargazers_field d = (case d of JObject kvs \<Rightarrow> map_of kvs ''stargazers_count'' | _ \<Rightarrow> None)"

definition is_number :: "json option \<Rightarrow> bool" where
  "is_number v = (case v of Some (JNumber n) \<Rightarrow> True | _ \<Rightarrow> False)"

definition fetch_failed :: "fetch_outcome \<Rightarrow> bool" where
  "fetch_failed outcome =
     (case outcome of
        Rejected \<Rightarrow> True
      | Resolved r \<Rightarrow>
          status r < 200 \<or> 299 < status r \<or>
          (case json_body r of None \<Rightarrow> True | Some d \<Rightarrow> \<not> is_number (stargazers_field d)))"

subsection \<open>NavigationMenu\<close>

text \<open>
  An element of the document with its attribute names and its parent, as
  \<open>Element.closest\<close> sees it. The selector \<open>[a]\<close> matches an element carrying attribute \<open>a\<close>.
\<close>

datatype element = Element (attributes: "string list") (parentElement: "element option")

definition matches_attr :: "element \<Rightarrow> string \<Rightarrow> bool" where
  "matches_attr e a = (a \<in> set (attributes e))"

text \<open>\<open>closest\<close>: the element itself or its nearest ancestor that matches.\<close>

fun closest :: "string \<Rightarrow> element \<Rightarrow> element option" where
  "closest a (Element as p) =
     (if a \<in> set as then Some (Element as p)
      else (case p of None \<Rightarrow> None | Some q \<Rightarrow> closest a q))"

record menu_state =
  isMenuOpen :: bool

text \<open>\<open>handleClick\<close> (lines 103 to 108), the listener on \<open>document\<close>.\<close>

definition handleClick :: "element \<Rightarrow> menu_state \<Rightarrow> menu_state" where
  "handleClick target s =
     (if isMenuOpen s \<and> closest ''data-menu-container'' target = None
      then s\<lparr>isMenuOpen := False\<rparr> else s)"

text \<open>Ancestor containment, stated on its own: the element and all its ancestors.\<close>

fun inclusive_ancestors :: "element \<Rightarrow> element list" where
  "inclusive_ancestors (Element as p) =
     Element as p # (case p of None \<Rightarrow> [] | Some q \<Rightarrow> inclusive_ancestors q)"

definition inside_menu_container :: "element \<Rightarrow> bool" where
  "inside_menu_container t =
     (\<exists>e \<in> set (inclusive_ancestors t). matches_attr e ''data-menu-container'')"

subsection \<open>VideoModalController\<close>

text \<open>
  The modal (lines 381 to 407): a backdrop, inside it the content box, inside that the
  close button. (Clicks within the embedded player stay in its own document.) A click
  runs the \<open>onClick\<close> handlers from the target upwards until one stops propagation.
\<close>

datatype modal_element = Backdrop | Content | CloseButton

record modal_state =
  showVideo :: bool

text \<open>The handlers; the second component says whether propagation has been stopped.\<close>

fun onClick :: "modal_element \<Rightarrow> modal_state \<times> bool \<Rightarrow> modal_state \<times> bool" where
  "onClick Backdrop (s, stopped) = (s\<lparr>showVideo := False\<rparr>, stopped)"
| "onClick Content (s, stopped) = (s, True)"
| "onClick CloseButton (s, stopped) = (s\<lparr>showVideo := False\<rparr>, stopped)"

fun propagation_path :: "modal_element \<Rightarrow> modal_element list" where
  "propagation_path Backdrop = [Backdrop]"
| "propagation_path Content = [Content, Backdrop]"
| "propagation_path CloseButton = [CloseButton, Content, Backdrop]"

fun dispatch :: "modal_element list \<Rightarrow> modal_state \<times> bool \<Rightarrow> modal_state \<times> bool" where
  "dispatch [] st = st"
| "dispatch (e # es) st =
     (let st' = onClick e st in if snd st' then st' else dispatch es st')"

text \<open>A click on an element of the modal; the modal is in the document only while shown.\<close>

definition modal_click :: "modal_element \<Rightarrow> modal_state \<Rightarrow> modal_state" where
  "modal_click target s =
     (if showVideo s then fst (dispatch (propagation_path target) (s, False)) else s)"

text \<open>The "Watch Demo" button (line 359).\<close>

definition watchDemo :: "modal_state \<Rightarrow> modal_state" where
  "watchDemo s = s\<lparr>showVideo := True\<rparr>"

subsection \<open>Timers and the debounce helper\<close>

text \<open>
  The timers of the event loop: \<open>setTimeout\<close> registers a callback under a fresh id to run
  \<open>ms\<close> milliseconds after the current time, \<open>clearTimeout\<close> removes the timer with the
  given id (and does nothing for \<open>undefined\<close>, here \<open>None\<close>, or for an id that has already
  run). Time is counted in milliseconds.
\<close>

record 'cb timer =
  timer_id :: nat
  due :: nat
  callback :: 'cb

record 'cb event_loop =
  now :: nat
  next_id :: nat
  timers :: "'cb timer list"

definition setTimeout :: "'cb \<Rightarrow> nat \<Rightarrow> 'cb event_loop \<Rightarrow> nat \<times> 'cb event_loop" where
  "setTimeout f delay el =
     (next_id el,
      el\<lparr>next_id := Suc (next_id el),
         timers := timers el @ [\<lparr>timer_id = next_id el, due = now el + delay, callback = f\<rparr>]\<rparr>)"

definition clearTimeout :: "nat option \<Rightarrow> 'cb event_loop \<Rightarrow> 'cb event_loop" where
  "clearTimeout tid el =
     (case tid of
        None \<Rightarrow> el
      | Some i \<Rightarrow> el\<lparr>timers := filter (\<lambda>t. timer_id t \<noteq> i) (timers el)\<rparr>)"

text \<open>
  Time passes up to \<open>t\<close>: the timers due by then leave the table, to be run in the order
  of their due times (registration order among equals); the others stay.
\<close>

definition take_due :: "nat \<Rightarrow> 'cb event_loop \<Rightarrow> 'cb timer list \<times> 'cb event_loop" where
  "take_due t el =
     (sort_key due (filter (\<lambda>x. due x \<le> t) (timers el)),
      el\<lparr>now := t, timers := filter (\<lambda>x. \<not> due x \<le> t) (timers el)\<rparr>)"

text \<open>
  \<open>debounce\<close> (lines 15 to 21) returns a closure over \<open>fn\<close>, \<open>ms\<close> and its private
  variable \<open>timeoutId\<close>; the closure is the record, a call of it is \<open>call_debounced\<close>.
  The delay defaults to 100 when the argument is left out.
\<close>

record 'cb debounced =
  fn :: 'cb
  ms :: nat
  timeoutId :: "nat option"

definition debounce :: "'cb \<Rightarrow> nat option \<Rightarrow> 'cb debounced" where
  "debounce f delay =
     \<lparr>fn = f, ms = (case delay of None \<Rightarrow> 100 | Some m \<Rightarrow> m), timeoutId = None\<rparr>"

definition call_debounced :: "'cb debounced \<Rightarrow> 'cb event_loop \<Rightarrow> 'cb debounced \<times> 'cb event_loop" where
  "call_debounced d el =
     (let el1 = clearTimeout (timeoutId d) el;
          (i, el2) = setTimeout (fn d) (ms d) el1
      in (d\<lparr>timeoutId := Some i\<rparr>, el2))"

text \<open>
  One debounced function driven over time: an event of its source calls it, time
  passing runs the timers that fall due. \<open>run_calls\<close> records each invocation of the
  wrapped function with the time it happens.
\<close>

datatype source_event = Trigger | Wait nat

record 'cb debounce_run =
  run_loop :: "'cb event_loop"
  run_wrapper :: "'cb debounced"
  run_calls :: "(nat \<times> 'cb) list"

definition run_start :: "'cb \<Rightarrow> nat option \<Rightarrow> nat \<Rightarrow> 'cb debounce_run" where
  "run_start f delay t0 =
     \<lparr>run_loop = \<lparr>now = t0, next_id = 1, timers = []\<rparr>,
      run_wrapper = debounce f delay,
      run_calls = []\<rparr>"

fun run_step :: "source_event \<Rightarrow> 'cb debounce_run \<Rightarrow> 'cb debounce_run" where
  "run_step Trigger r =
     (let (d, el) = call_debounced (run_wrapper r) (run_loop r)
      in r\<lparr>run_loop := el, run_wrapper := d\<rparr>)"
| "run_step (Wait dt) r =
     (let (ready, el) = take_due (now (run_loop r) + dt) (run_loop r)
      in r\<lparr>run_loop := el, run_calls := run_calls r @ map (\<lambda>x. (due x, callback x)) ready\<rparr>)"

fun run_events :: "source_event list \<Rightarrow> 'cb debounce_run \<Rightarrow> 'cb debounce_run" where
  "run_events [] r = r"
| "run_events (e # es) r = run_events es (run_step e r)"

text \<open>A burst: events of one source, the given gaps between consecutive ones.\<close>

fun burst :: "nat list \<Rightarrow> source_event list" where
  "burst [] = [Trigger]"
| "burst (g # gs) = Trigger # Wait g # burst gs"

subsection \<open>ScrollVisibilityTracker\<close>

text \<open>
  The layout numbers of \<open>document.documentElement\<close> that \<open>checkScroll\<close> reads, the two
  state variables it and the start-up timer write, the timers, and the two debounced
  listeners. \<open>measured\<close> is a history variable: the geometry \<open>checkScroll\<close> read last.
\<close>

record geometry =
  scrollTop :: int
  scrollHeight :: int
  clientHeight :: int

datatype page_callback = InitCallback | CheckScrollCallback

record tracker_state =
  isScrolled :: bool
  isInitialized :: bool
  documentElement :: geometry
  page_loop :: "page_callback event_loop"
  debouncedScroll :: "page_callback debounced"
  debouncedResize :: "page_callback debounced"
  measured :: "geometry option"

definition hasScrollableContent :: "geometry \<Rightarrow> bool" where
  "hasScrollableContent g = (scrollHeight g > clientHeight g + 10)"

definition hasScrolled :: "geometry \<Rightarrow> bool" where
  "hasScrolled g = (scrollTop g > 5)"

text \<open>\<open>checkScroll\<close> (lines 116 to 122).\<close>

definition checkScroll :: "tracker_state \<Rightarrow> tracker_state" where
  "checkScroll s =
     (let g = documentElement s
      in s\<lparr>isScrolled := (hasScrollableContent g \<and> hasScrolled g), measured := Some g\<rparr>)"

text \<open>What a timer runs: the start-up callback (lines 125 to 128) or \<open>checkScroll\<close>.\<close>

fun run_callback :: "tracker_state \<Rightarrow> page_callback timer \<Rightarrow> tracker_state" where
  "run_callback s x =
     (case callback x of
        InitCallback \<Rightarrow> checkScroll (s\<lparr>isInitialized := True\<rparr>)
      | CheckScrollCallback \<Rightarrow> checkScroll s)"

text \<open>
  The effect at mount (lines 115 to 141), at time 0, the document laid out as \<open>g\<close>:
  the start-up timer of 100 ms and the two debounced listeners. The page is followed
  while the component is mounted; the clean-up at unmount is not part of the model.
\<close>

definition mount :: "geometry \<Rightarrow> tracker_state" where
  "mount g =
     (let (initTimeout, el) = setTimeout InitCallback 100 \<lparr>now = 0, next_id = 1, timers = []\<rparr>
      in \<lparr>isScrolled = False,
          isInitialized = False,
          documentElement = g,
          page_loop = el,
          debouncedScroll = debounce CheckScrollCallback (Some 50),
          debouncedResize = debounce CheckScrollCallback (Some 100),
          measured = None\<rparr>)"

text \<open>
  What happens to the page: the user scrolls to an offset (a \<open>scroll\<close> event), the window
  is resized and the document laid out anew (a \<open>resize\<close> event), or time passes.
\<close>

datatype page_event = Scroll int | Resize int int | Elapse nat

fun tracker_step :: "page_event \<Rightarrow> tracker_state \<Rightarrow> tracker_state" where
  "tracker_step (Scroll y) s =
     (let (d, el) = call_debounced (debouncedScroll s) (page_loop s)
      in s\<lparr>documentElement := (documentElement s)\<lparr>scrollTop := y\<rparr>,
           page_loop := el, debouncedScroll := d\<rparr>)"
| "tracker_step (Resize ch sh) s =
     (let (d, el) = call_debounced (debouncedResize s) (page_loop s)
      in s\<lparr>documentElement := (documentElement s)\<lparr>clientHeight := ch, scrollHeight := sh\<rparr>,
           page_loop := el, debouncedResize := d\<rparr>)"
| "tracker_step (Elapse dt) s =
     (let (ready, el) = take_due (now (page_loop s) + dt) (page_loop s)
      in foldl run_callback (s\<lparr>page_loop := el\<rparr>) ready)"

fun tracker_run :: "page_event list \<Rightarrow> tracker_state \<Rightarrow> tracker_state" where
  "tracker_run [] s = s"
| "tracker_run (e # es) s = tracker_run es (tracker_step e s)"

text \<open>
  The condition under which the floating call-to-action gets the classes that show it
  (line 339). From the \<open>md\<close> breakpoint on the block is static, not floating, and the
  style sheet shows it whatever the state.
\<close>

definition cta_visible :: "tracker_state \<Rightarrow> bool" where
  "cta_visible s = (isScrolled s \<and> isInitialized s)"

text \<open>The theme state of a first visit: nothing stored, the light theme applied.\<close>

definition fresh_theme_state :: theme_state where
  "fresh_theme_state =
     \<lparr>isDarkMode = False, localStorage = Map.empty, classList = [],
      html_backgroundColor = ''white'', body_backgroundColor = ''white''\<rparr>"

text \<open>
  A small document for concrete clicks: the root, the open menu panel (marked
  \<open>data-menu-container\<close>) with a link inside it, and a heading outside it; and a payload
  as the API returns it.
\<close>

definition example_root :: element where
  "example_root = Element [''class''] None"

definition example_menu_panel :: element where
  "example_menu_panel = Element [''class'', ''data-menu-container''] (Some example_root)"

definition example_menu_link :: element where
  "example_menu_link = Element [''href'', ''class''] (Some example_menu_panel)"

definition example_heading :: element where
  "example_heading = Element [''class''] (Some example_root)"

definition example_payload :: json where
  "example_payload = JObject [(''name'', JString ''lume''), (''stargazers_count'', JNumber 15800)]"

text \<open>
  For the proofs about one debounced function: at most the wrapper's own timer is
  pending (\<open>run_inv\<close>); right after an event that timer is due one quiet period later
  (\<open>armed\<close>).
\<close>

definition run_inv :: "'cb debounce_run \<Rightarrow> bool" where
  "run_inv r =
     (timers (run_loop r) = [] \<or>
      (\<exists>x. timers (run_loop r) = [x] \<and> timeoutId (run_wrapper r) = Some (timer_id x)))"

definition armed :: "'cb debounce_run \<Rightarrow> bool" where
  "armed r =
     (\<exists>i. timers (run_loop r) =
             [\<lparr>timer_id = i, due = now (run_loop r) + ms (run_wrapper r),
               callback = fn (run_wrapper r)\<rparr>]
          \<and> timeoutId (run_wrapper r) = Some i)"

text \<open>
  The two thresholds in the words of the specification, and what holds of the tracker
  in every state it reaches: \<open>isScrolled\<close> is the outcome of the last measurement, a
  measurement older than the layout has a timer pending, and the start-up timer (id 1,
  due at 100 ms) is the only way to \<open>isInitialized\<close>.
\<close>

definition thresholds :: "geometry \<Rightarrow> bool" where
  "thresholds g = (scrollHeight g > clientHeight g + 10 \<and> scrollTop g > 5)"

definition inv_measured :: "tracker_state \<Rightarrow> bool" where
  "inv_measured s =
     (isScrolled s = (case measured s of None \<Rightarrow> False | Some m \<Rightarrow> thresholds m))"

definition inv_fresh :: "tracker_state \<Rightarrow> bool" where
  "inv_fresh s = (measured s = Some (documentElement s) \<or> timers (page_loop s) \<noteq> [])"

definition inv_init :: "tracker_state \<Rightarrow> bool" where
  "inv_init s =
     ((isInitialized s \<longrightarrow> 100 \<le> now (page_loop s))
      \<and> (isInitialized s \<or> (\<exists>x \<in> set (timers (page_loop s)). callback x = InitCallback))
      \<and> (\<forall>x \<in> set (timers (page_loop s)).
            callback x = InitCallback \<longrightarrow> timer_id x = 1 \<and> 100 \<le> due x)
      \<and> 2 \<le> next_id (page_loop s)
      \<and> (\<forall>i. timeoutId (debouncedScroll s) = Some i \<longrightarrow> 2 \<le> i)
      \<and> (\<forall>i. timeoutId (debouncedResize s) = Some i \<longrightarrow> 2 \<le> i)
      \<and> fn (debouncedScroll s) = CheckScrollCallback
      \<and> fn (debouncedResize s) = CheckScrollCallback)"

text \<open>A page taller than its viewport, at the top.\<close>

definition example_layout :: geometry where
  "example_layout = \<lparr>scrollTop = 0, scrollHeight = 2000, clientHeight = 800\<rparr>"

section \<open>Verified properties\<close>

subsection \<open>The star-count formatter\<close>

lemma Math_round_div_100: "Math_round (of_int c / 100) = (c + 50) div 100"
proof -
  have "(of_int c :: rat) / 100 + 1 / 2 = of_int (c + 50) / of_int 100"
    by (simp add: field_simps)
  then show ?thesis
    unfolding Math_round_def by (simp only: floor_divide_of_int_eq)
qed

lemma digit_cases:
  assumes "d < (10::nat)"
  shows "d = 0 \<or> d = 1 \<or> d = 2 \<or> d = 3 \<or> d = 4 \<or> d = 5 \<or> d = 6 \<or> d = 7 \<or> d = 8 \<or> d = 9"
  using assms by arith

lemma digit_char_zero_iff:
  assumes "d < 10"
  shows "digit_char d = CHR ''0'' \<longleftrightarrow> d = 0"
  using digit_cases [OF assms] by (auto simp: digit_char_def)

lemma digit_value_digit_char:
  assumes "d < 10"
  shows "digit_value (digit_char d) = d"
  using digit_cases [OF assms] by (auto simp: digit_char_def digit_value_def)

lemma nat_toString_nonempty: "nat_toString n \<noteq> []"
  by (subst nat_toString.simps) simp

lemma nat_toString_digit: "n < 10 \<Longrightarrow> nat_toString n = [digit_char n]"
  by (subst nat_toString.simps) simp

lemma nat_toString_step:
  "10 \<le> n \<Longrightarrow> nat_toString n = nat_toString (n div 10) @ [digit_char (n mod 10)]"
  by (subst nat_toString.simps) simp

lemma decimal_value_snoc: "decimal_value (s @ [c]) = 10 * decimal_value s + digit_value c"
  by (simp add: decimal_value_def)

lemma decimal_value_nat_toString: "decimal_value (nat_toString n) = n"
proof (induction n rule: nat_toString.induct)
  case (1 n)
  show ?case
  proof (cases "n < 10")
    case True
    then show ?thesis
      by (simp add: nat_toString_digit decimal_value_def digit_value_digit_char)
  next
    case False
    then have "decimal_value (nat_toString (n div 10)) = n div 10"
      using "1.IH" by simp
    with False show ?thesis
      by (simp add: nat_toString_step decimal_value_snoc digit_value_digit_char)
  qed
qed

lemma toFixed1_tenths:
  assumes "10 \<le> h"
  shows "toFixed1 (of_int (int h * 100) / 1000)
           = nat_toString (h div 10) @ ''.'' @ [digit_char (h mod 10)]"
proof -
  have val: "\<bar>(of_int (int h * 100) :: rat) / 1000\<bar> * 10 + 1 / 2 = of_int (int h) + 1 / 2"
    by simp
  have fl: "\<lfloor>(of_int (int h) :: rat) + 1 / 2\<rfloor> = int h"
    by linarith
  have n: "nat \<lfloor>\<bar>(of_int (int h * 100) :: rat) / 1000\<bar> * 10 + 1 / 2\<rfloor> = h"
    by (simp only: val fl nat_int)
  have nonneg: "\<not> (of_int (int h * 100) :: rat) / 1000 < 0"
    by simp
  have len: "\<not> length (nat_toString h) \<le> 1"
    using assms nat_toString_nonempty [of "h div 10"]
    by (simp add: nat_toString_step)
  show ?thesis
    unfolding toFixed1_def Let_def n
    using nonneg len assms by (simp add: nat_toString_step)
qed

lemma replace_dot0_decimal:
  assumes "d < 10"
  shows "replace_dot0 (a @ [CHR ''.'', digit_char d])
           = (if d = 0 then a else a @ [CHR ''.'', digit_char d])"
  using digit_char_zero_iff [OF assms]
  by (simp add: replace_dot0_def Let_def)

lemma formatStarCount_thousands:
  assumes "1000 \<le> c"
  shows "formatStarCount (Some c) =
           (let h = nat ((c + 50) div 100)
            in nat_toString (h div 10)
               @ (if h mod 10 = 0 then [] else ''.'' @ [digit_char (h mod 10)]) @ ''k'')"
proof -
  define h where "h = nat ((c + 50) div 100)"
  have h: "(c + 50) div 100 = int h" "10 \<le> h"
    using assms unfolding h_def by auto
  have "formatStarCount (Some c) = replace_dot0 (toFixed1 (of_int (int h * 100) / 1000)) @ ''k''"
    using assms by (simp add: formatStarCount_def Math_round_div_100 h(1))
  also have "\<dots> = replace_dot0 (nat_toString (h div 10) @ ''.'' @ [digit_char (h mod 10)]) @ ''k''"
    by (simp only: toFixed1_tenths [OF h(2)])
  also have "\<dots> = nat_toString (h div 10)
               @ (if h mod 10 = 0 then [] else ''.'' @ [digit_char (h mod 10)]) @ ''k''"
    using replace_dot0_decimal [of "h mod 10" "nat_toString (h div 10)"] by simp
  finally show ?thesis
    unfolding h_def Let_def .
qed

text \<open>
  C1. For a non-negative count \<open>c\<close> (a safe integer): below 1000 the formatter returns
  the decimal digits of \<open>c\<close>. From 1000 on, with \<open>h = (c + 50) div 100\<close> the count in
  hundreds rounded to nearest (a tie going up), so that \<open>h * 100\<close> is
  \<open>round(c / 100) * 100\<close> and \<open>h / 10\<close> is that value divided by 1000, it returns the integer
  part \<open>h div 10\<close>, then a point and the one decimal digit \<open>h mod 10\<close> unless that digit
  is 0, then \<open>k\<close>. The four examples of the specification hold.
\<close>

theorem formatStarCount_spec:
  assumes "0 \<le> c" and "c \<le> MAX_SAFE_INTEGER"
  shows "(c < 1000 \<longrightarrow> formatStarCount (Some c) = nat_toString (nat c))
       \<and> (1000 \<le> c \<longrightarrow>
            formatStarCount (Some c) =
              (let h = nat ((c + 50) div 100)
               in nat_toString (h div 10)
                  @ (if h mod 10 = 0 then [] else ''.'' @ [digit_char (h mod 10)]) @ ''k''))
       \<and> formatStarCount (Some 999) = ''999''
       \<and> formatStarCount (Some 1000) = ''1k''
       \<and> formatStarCount (Some 1250) = ''1.3k''
       \<and> formatStarCount (Some 15800) = ''15.8k''"
proof -
  have small: "c < 1000 \<longrightarrow> formatStarCount (Some c) = nat_toString (nat c)"
    using assms(1) by (simp add: formatStarCount_def number_toString_def)
  have large: "1000 \<le> c \<longrightarrow>
            formatStarCount (Some c) =
              (let h = nat ((c + 50) div 100)
               in nat_toString (h div 10)
                  @ (if h mod 10 = 0 then [] else ''.'' @ [digit_char (h mod 10)]) @ ''k'')"
    using formatStarCount_thousands by blast
  have e1: "formatStarCount (Some 999) = ''999''"
    by code_simp
  have e2: "formatStarCount (Some 1000) = ''1k''"
    by code_simp
  have e3: "formatStarCount (Some 1250) = ''1.3k''"
    by code_simp
  have e4: "formatStarCount (Some 15800) = ''15.8k''"
    by code_simp
  from small large e1 e2 e3 e4 show ?thesis
    by (intro conjI)
qed

theorem formatStarCount_spec_witness:
  "(0::int) \<le> 1949 \<and> (1949::int) \<le> MAX_SAFE_INTEGER \<and> formatStarCount (Some 1949) = ''1.9k''"
proof -
  have a: "(0::int) \<le> 1949" by simp
  have b: "(1949::int) \<le> MAX_SAFE_INTEGER" by (simp add: MAX_SAFE_INTEGER_def)
  have "formatStarCount (Some 1949) = ''1.9k''"
    using formatStarCount_spec [OF a b]
    by (simp add: nat_toString_digit digit_char_def)
  with a b show ?thesis by simp
qed

subsection \<open>The theme\<close>

text \<open>
  C6. After \<open>toggleTheme\<close> the theme key holds \<open>dark\<close> or \<open>light\<close>, and \<open>dark\<close> exactly
  when the new preference is dark; read back by the initializer, the stored value
  resolves to that preference.
\<close>

theorem toggleTheme_storage:
  "getItem (localStorage (toggleTheme s)) ''theme''
     = Some (if isDarkMode (toggleTheme s) then ''dark'' else ''light'')
   \<and> (getItem (localStorage (toggleTheme s)) ''theme'' = Some ''dark''
        \<longleftrightarrow> isDarkMode (toggleTheme s))
   \<and> getItem (localStorage (toggleTheme s)) ''theme'' \<in> {Some ''dark'', Some ''light''}
   \<and> initialIsDarkMode (localStorage (toggleTheme s)) = isDarkMode (toggleTheme s)
   \<and> isDarkMode (toggleTheme s) = (\<not> isDarkMode s)"
  by (simp add: toggleTheme_def Let_def getItem_def setItem_def initialIsDarkMode_def)

theorem toggleTheme_storage_witness:
  "getItem (localStorage (toggleTheme fresh_theme_state)) ''theme'' = Some ''dark''
   \<and> isDarkMode (toggleTheme fresh_theme_state)"
  using toggleTheme_storage [of fresh_theme_state]
  by (simp add: toggleTheme_def Let_def fresh_theme_state_def)

text \<open>
  C9. The page starts dark exactly when the stored theme is the string \<open>dark\<close>: with
  the key absent, or holding any other string, it starts light.
\<close>

theorem initialIsDarkMode_iff:
  "(initialIsDarkMode st \<longleftrightarrow> getItem st ''theme'' = Some ''dark'')
   \<and> (getItem st ''theme'' = None \<longrightarrow> \<not> initialIsDarkMode st)
   \<and> (getItem st ''theme'' = Some ''light'' \<longrightarrow> \<not> initialIsDarkMode st)
   \<and> (\<forall>v. v \<noteq> ''dark'' \<longrightarrow> getItem st ''theme'' = Some v \<longrightarrow> \<not> initialIsDarkMode st)"
  by (simp add: initialIsDarkMode_def)

theorem initialIsDarkMode_iff_witness:
  "initialIsDarkMode (setItem Map.empty ''theme'' ''dark'')
   \<and> \<not> initialIsDarkMode Map.empty
   \<and> \<not> initialIsDarkMode (setItem Map.empty ''theme'' ''light'')
   \<and> \<not> initialIsDarkMode (setItem Map.empty ''theme'' ''Dark'')"
  using initialIsDarkMode_iff [of "setItem Map.empty ''theme'' ''dark''"]
    initialIsDarkMode_iff [of "Map.empty"]
    initialIsDarkMode_iff [of "setItem Map.empty ''theme'' ''light''"]
    initialIsDarkMode_iff [of "setItem Map.empty ''theme'' ''Dark''"]
  by (simp add: getItem_def setItem_def)

text \<open>
  C3, as stated, fails on a first visit: nothing is stored, the page starts light, and
  two toggles leave \<open>light\<close> under the key where there was no value.
\<close>

theorem toggleTheme_twice_counterexample:
  "isDarkMode fresh_theme_state = initialIsDarkMode (localStorage fresh_theme_state)
   \<and> getItem (localStorage fresh_theme_state) ''theme'' = None
   \<and> getItem (localStorage (toggleTheme (toggleTheme fresh_theme_state))) ''theme'' = Some ''light''
   \<and> getItem (localStorage (toggleTheme (toggleTheme fresh_theme_state))) ''theme''
       \<noteq> getItem (localStorage fresh_theme_state) ''theme''"
  by (simp add: toggleTheme_def Let_def fresh_theme_state_def getItem_def setItem_def initialIsDarkMode_def)

text \<open>
  C3, amended. Two toggles restore the preference, and leave under the theme key the
  string for that preference; so the stored value is the original one exactly when the
  original one was already that string.
\<close>

theorem toggleTheme_twice:
  "isDarkMode (toggleTheme (toggleTheme s)) = isDarkMode s
   \<and> getItem (localStorage (toggleTheme (toggleTheme s))) ''theme''
       = Some (if isDarkMode s then ''dark'' else ''light'')
   \<and> (getItem (localStorage (toggleTheme (toggleTheme s))) ''theme''
         = getItem (localStorage s) ''theme''
       \<longleftrightarrow> getItem (localStorage s) ''theme'' = Some (if isDarkMode s then ''dark'' else ''light''))"
  by (auto simp add: toggleTheme_def Let_def getItem_def setItem_def)

theorem toggleTheme_twice_witness:
  "isDarkMode (toggleTheme (toggleTheme (toggleTheme fresh_theme_state)))
   \<and> getItem (localStorage (toggleTheme (toggleTheme (toggleTheme fresh_theme_state)))) ''theme''
       = getItem (localStorage (toggleTheme fresh_theme_state)) ''theme''"
  using toggleTheme_twice [of "toggleTheme fresh_theme_state"]
  by (simp add: toggleTheme_def Let_def fresh_theme_state_def getItem_def setItem_def)

subsection \<open>The menu\<close>

lemma closest_None_iff:
  "closest a t = None \<longleftrightarrow> (\<forall>e \<in> set (inclusive_ancestors t). a \<notin> set (attributes e))"
  by (induction a t rule: closest.induct) (auto split: option.splits)

lemma closest_inside:
  "closest ''data-menu-container'' t = None \<longleftrightarrow> \<not> inside_menu_container t"
  by (simp add: closest_None_iff inside_menu_container_def matches_attr_def)

lemma example_heading_outside: "\<not> inside_menu_container example_heading"
  by (simp add: inside_menu_container_def matches_attr_def example_heading_def example_root_def)

lemma example_menu_link_inside: "inside_menu_container example_menu_link"
  by (simp add: inside_menu_container_def matches_attr_def example_menu_link_def
      example_menu_panel_def example_root_def)

text \<open>
  C4. With the menu open, a click whose target has no element carrying
  \<open>data-menu-container\<close> among itself and its ancestors closes the menu; a click whose
  target has one leaves the state as it is, open.
\<close>

theorem handleClick_open:
  assumes "isMenuOpen s"
  shows "(\<not> inside_menu_container t \<longrightarrow> \<not> isMenuOpen (handleClick t s))
       \<and> (inside_menu_container t \<longrightarrow> handleClick t s = s \<and> isMenuOpen (handleClick t s))"
  using assms by (simp add: handleClick_def closest_inside)

theorem handleClick_open_witness:
  "isMenuOpen \<lparr>isMenuOpen = True\<rparr>
   \<and> \<not> isMenuOpen (handleClick example_heading \<lparr>isMenuOpen = True\<rparr>)
   \<and> isMenuOpen (handleClick example_menu_link \<lparr>isMenuOpen = True\<rparr>)"
  using handleClick_open [of "\<lparr>isMenuOpen = True\<rparr>" example_heading]
    handleClick_open [of "\<lparr>isMenuOpen = True\<rparr>" example_menu_link]
    example_heading_outside example_menu_link_inside
  by simp

text \<open>
  C10. The listener never opens the menu: on a closed menu it changes nothing, a
  menu that is open after it was open before, and whenever it changes the state it
  takes an open menu to a closed one.
\<close>

theorem handleClick_never_opens:
  "(\<not> isMenuOpen s \<longrightarrow> handleClick t s = s)
   \<and> (isMenuOpen (handleClick t s) \<longrightarrow> isMenuOpen s)
   \<and> (handleClick t s \<noteq> s \<longrightarrow> isMenuOpen s \<and> \<not> isMenuOpen (handleClick t s))"
  by (simp add: handleClick_def)

theorem handleClick_never_opens_witness:
  "\<not> isMenuOpen \<lparr>isMenuOpen = False\<rparr>
   \<and> handleClick example_heading \<lparr>isMenuOpen = False\<rparr> = \<lparr>isMenuOpen = False\<rparr>
   \<and> handleClick example_menu_link \<lparr>isMenuOpen = False\<rparr> = \<lparr>isMenuOpen = False\<rparr>"
  using handleClick_never_opens [of "\<lparr>isMenuOpen = False\<rparr>" example_heading]
    handleClick_never_opens [of "\<lparr>isMenuOpen = False\<rparr>" example_menu_link]
  by simp

subsection \<open>The video modal\<close>

text \<open>
  C7. While the modal is shown, a click on the backdrop hides it; a click on the content
  box leaves the state unchanged, its handler having stopped the propagation before
  the backdrop's handler could run.
\<close>

theorem modal_click_backdrop_content:
  assumes "showVideo s"
  shows "\<not> showVideo (modal_click Backdrop s)
       \<and> modal_click Content s = s
       \<and> dispatch (propagation_path Content) (s, False) = (s, True)"
  using assms by (simp add: modal_click_def)

theorem modal_click_backdrop_content_witness:
  "showVideo (watchDemo \<lparr>showVideo = False\<rparr>)
   \<and> \<not> showVideo (modal_click Backdrop (watchDemo \<lparr>showVideo = False\<rparr>))
   \<and> modal_click Content (watchDemo \<lparr>showVideo = False\<rparr>) = \<lparr>showVideo = True\<rparr>"
proof -
  have shown: "showVideo (watchDemo \<lparr>showVideo = False\<rparr>)"
    by (simp add: watchDemo_def)
  show ?thesis
    using shown modal_click_backdrop_content [OF shown]
    by (simp add: watchDemo_def)
qed

text \<open>The close button sits inside the content box and hides the modal itself.\<close>

lemma modal_click_close_button:
  "showVideo s \<Longrightarrow> \<not> showVideo (modal_click CloseButton s)"
  by (simp add: modal_click_def)


subsection \<open>The star-count fetch\<close>

lemma typeof_number_iff: "typeof v = ''number'' \<longleftrightarrow> is_number v"
proof (cases v)
  case None
  then show ?thesis by (simp add: is_number_def)
next
  case (Some j)
  then show ?thesis by (cases j) (simp_all add: is_number_def)
qed

lemma invalid_payload:
  assumes "\<not> is_number (stargazers_field d)"
  shows "falsy d \<or> typeof (get_property d ''stargazers_count'') \<noteq> ''number''"
  using assms by (cases d) (simp_all add: stargazers_field_def typeof_number_iff)

lemma valid_payload:
  assumes "is_number (stargazers_field d)"
  shows "\<not> falsy d \<and> (\<exists>n. get_property d ''stargazers_count'' = Some (JNumber n))"
proof (cases d)
  case (JObject kvs)
  with assms show ?thesis
    by (auto simp: stargazers_field_def is_number_def split: option.splits json.splits)
qed (use assms in \<open>simp_all add: stargazers_field_def is_number_def\<close>)

lemma fetchStars_try_failed:
  assumes "fetch_failed outcome"
  shows "lumeStars (case fetchStars_try outcome s of Inl (e, s') \<Rightarrow> s' | Inr s' \<Rightarrow> s') = lumeStars s"
proof (cases outcome)
  case Rejected
  then show ?thesis
    by (simp add: fetchStars_try_def console_log_def)
next
  case (Resolved r)
  show ?thesis
  proof (cases "response_ok r")
    case False
    with Resolved show ?thesis
      by (simp add: fetchStars_try_def console_log_def console_error_def)
  next
    case True
    show ?thesis
    proof (cases "json_body r")
      case None
      with Resolved True show ?thesis
        by (simp add: fetchStars_try_def console_log_def)
    next
      case (Some d)
      with Resolved True assms have "\<not> is_number (stargazers_field d)"
        by (auto simp: fetch_failed_def response_ok_def)
      then have "falsy d \<or> typeof (get_property d ''stargazers_count'') \<noteq> ''number''"
        by (rule invalid_payload)
      with Resolved True Some show ?thesis
        by (simp add: fetchStars_try_def console_log_def console_error_def)
    qed
  qed
qed

lemma fetchStars_returns: "\<exists>s'. fetchStars outcome s = Inr s'"
  by (simp add: fetchStars_def split: sum.splits prod.splits)

text \<open>
  C2, as stated, fails on the rendered page: after a network failure \<open>lumeStars\<close> is
  \<open>null\<close> and nothing was thrown, but the page shows no count, so it does not show \<open>0\<close>.
\<close>

theorem fetchStars_failure_counterexample:
  "fetch_failed Rejected
   \<and> fetchStars Rejected initial_star_state =
       Inr \<lparr>lumeStars = None,
            console = [ConsoleLog ''Fetching GitHub stars...'',
                       ConsoleError ''Error fetching GitHub stars:'']\<rparr>
   \<and> githubLink_children
        \<lparr>lumeStars = None,
         console = [ConsoleLog ''Fetching GitHub stars...'',
                    ConsoleError ''Error fetching GitHub stars:'']\<rparr>
       = [Icon ''Github'', Icon ''Star'']
   \<and> displayed_count
        \<lparr>lumeStars = None,
         console = [ConsoleLog ''Fetching GitHub stars...'',
                    ConsoleError ''Error fetching GitHub stars:'']\<rparr>
       \<noteq> Some ''0''"
  by (simp add: fetch_failed_def fetchStars_def fetchStars_try_def initial_star_state_def
      console_log_def console_error_def displayed_count_def displayed_text_def
      githubLink_children_def)

text \<open>
  C2, amended. On a failing outcome \<open>fetchStars\<close> completes normally (nothing is thrown
  out of it) and leaves \<open>lumeStars\<close> as it was; started in the state the component mounts
  with, \<open>lumeStars\<close> is still \<open>null\<close> afterwards. The formatter yields its default \<open>0\<close>
  for that state, but the page does not render it: the links show no count at all.
\<close>

theorem fetchStars_failure:
  assumes "fetch_failed outcome"
  shows "(\<exists>s'. fetchStars outcome s = Inr s' \<and> lumeStars s' = lumeStars s
              \<and> displayed_count s' = None)
       \<and> (\<exists>s'. fetchStars outcome initial_star_state = Inr s'
               \<and> lumeStars s' = None \<and> formatStarCount (lumeStars s') = ''0''
               \<and> displayed_count s' = None)"
proof -
  have shown: "displayed_count s' = None" for s'
    by (simp add: displayed_count_def displayed_text_def githubLink_children_def)
  have keep: "\<exists>s'. fetchStars outcome s = Inr s' \<and> lumeStars s' = lumeStars s" for s
    using fetchStars_try_failed [OF assms, of s]
    by (auto simp: fetchStars_def console_error_def split: sum.splits prod.splits)
  from keep [of initial_star_state]
  have "\<exists>s'. fetchStars outcome initial_star_state = Inr s'
               \<and> lumeStars s' = None \<and> formatStarCount (lumeStars s') = ''0''"
    by (auto simp: initial_star_state_def formatStarCount_def)
  with keep [of s] shown show ?thesis
    by blast
qed

theorem fetchStars_failure_witness:
  "fetch_failed (Resolved \<lparr>status = 404, json_body = Some (JObject [(''message'', JString ''Not Found'')])\<rparr>)
   \<and> fetch_failed Rejected
   \<and> fetch_failed (Resolved \<lparr>status = 200, json_body = Some (JObject [(''stargazers_count'', JString ''many'')])\<rparr>)
   \<and> (\<exists>s'. fetchStars Rejected initial_star_state = Inr s' \<and> lumeStars s' = None
            \<and> displayed_count s' = None)
   \<and> (\<exists>s'. fetchStars (Resolved \<lparr>status = 404, json_body = Some (JObject [(''message'', JString ''Not Found'')])\<rparr>)
               initial_star_state = Inr s' \<and> lumeStars s' = None \<and> displayed_count s' = None)
   \<and> (\<exists>s'. fetchStars (Resolved \<lparr>status = 200, json_body = Some (JObject [(''stargazers_count'', JString ''many'')])\<rparr>)
               initial_star_state = Inr s' \<and> lumeStars s' = None \<and> displayed_count s' = None)"
proof -
  have a: "fetch_failed (Resolved \<lparr>status = 404, json_body = Some (JObject [(''message'', JString ''Not Found'')])\<rparr>)"
    by (simp add: fetch_failed_def)
  have b: "fetch_failed Rejected"
    by (simp add: fetch_failed_def)
  have c: "fetch_failed (Resolved \<lparr>status = 200, json_body = Some (JObject [(''stargazers_count'', JString ''many'')])\<rparr>)"
    by (simp add: fetch_failed_def stargazers_field_def is_number_def)
  show ?thesis
    using a b c fetchStars_failure [OF a, of initial_star_state]
      fetchStars_failure [OF b, of initial_star_state]
      fetchStars_failure [OF c, of initial_star_state]
    by blast
qed

text \<open>Nor is a count shown after a successful fetch: the links never change.\<close>

lemma displayed_count_never: "displayed_count s = None"
  by (simp add: displayed_count_def displayed_text_def githubLink_children_def)

lemma fetchStars_success:
  assumes "\<not> fetch_failed outcome"
  shows "\<exists>r d n. outcome = Resolved r \<and> json_body r = Some d
           \<and> stargazers_field d = Some (JNumber n)
           \<and> fetchStars outcome s =
               Inr (console_log ''GitHub API response:'' (console_log ''Fetching GitHub stars...'' s)
                     \<lparr>lumeStars := Some n\<rparr>)"
proof (cases outcome)
  case Rejected
  with assms show ?thesis by (simp add: fetch_failed_def)
next
  case (Resolved r)
  with assms obtain d where d: "json_body r = Some d" "is_number (stargazers_field d)"
    and ok: "response_ok r"
    by (auto simp: fetch_failed_def response_ok_def split: option.splits)
  from valid_payload [OF d(2)] obtain n
    where n: "\<not> falsy d" "get_property d ''stargazers_count'' = Some (JNumber n)"
    by blast
  then have "stargazers_field d = Some (JNumber n)"
    by (cases d) (simp_all add: stargazers_field_def)
  with Resolved d ok n show ?thesis
    by (simp add: fetchStars_def fetchStars_try_def)
qed

lemma fetchStars_example:
  "lumeStars (case fetchStars (Resolved \<lparr>status = 200, json_body = Some example_payload\<rparr>)
                     initial_star_state of Inr s' \<Rightarrow> s' | Inl (e, s') \<Rightarrow> s') = Some 15800"
  by (simp add: fetchStars_def fetchStars_try_def example_payload_def response_ok_def
      console_log_def initial_star_state_def)

subsection \<open>Debouncing\<close>

lemma run_inv_start: "run_inv (run_start f delay t0)"
  by (simp add: run_inv_def run_start_def)

lemma trigger_armed:
  assumes "run_inv r"
  shows "armed (run_step Trigger r)"
  using assms
  by (auto simp: run_inv_def armed_def call_debounced_def setTimeout_def clearTimeout_def Let_def
      split: option.splits)

lemma trigger_keeps:
  "now (run_loop (run_step Trigger r)) = now (run_loop r)"
  "run_calls (run_step Trigger r) = run_calls r"
  "ms (run_wrapper (run_step Trigger r)) = ms (run_wrapper r)"
  "fn (run_wrapper (run_step Trigger r)) = fn (run_wrapper r)"
  by (simp_all add: call_debounced_def setTimeout_def clearTimeout_def Let_def split: option.splits)

lemma wait_keeps:
  "now (run_loop (run_step (Wait dt) r)) = now (run_loop r) + dt"
  "run_wrapper (run_step (Wait dt) r) = run_wrapper r"
  by (simp_all add: take_due_def)

lemma armed_run_inv:
  assumes "armed r"
  shows "run_inv r"
  using assms by (auto simp: armed_def run_inv_def)

lemma wait_early:
  assumes "armed r" and "dt < ms (run_wrapper r)"
  shows "run_inv (run_step (Wait dt) r)"
    and "run_calls (run_step (Wait dt) r) = run_calls r"
    and "timers (run_loop (run_step (Wait dt) r)) = timers (run_loop r)"
  using assms by (auto simp: armed_def run_inv_def take_due_def)

lemma wait_late:
  assumes "armed r" and "ms (run_wrapper r) \<le> dt"
  shows "run_calls (run_step (Wait dt) r)
           = run_calls r @ [(now (run_loop r) + ms (run_wrapper r), fn (run_wrapper r))]"
    and "timers (run_loop (run_step (Wait dt) r)) = []"
  using assms by (auto simp: armed_def take_due_def)

lemma idle_waits:
  assumes "timers (run_loop r) = []"
  shows "run_calls (run_events (map Wait ws) r) = run_calls r
       \<and> timers (run_loop (run_events (map Wait ws) r)) = []"
  using assms
proof (induction ws arbitrary: r)
  case Nil
  then show ?case by simp
next
  case (Cons w ws)
  have "timers (run_loop (run_step (Wait w) r)) = []"
    and "run_calls (run_step (Wait w) r) = run_calls r"
    using Cons.prems by (simp_all add: take_due_def)
  with Cons.IH [of "run_step (Wait w) r"] show ?case
    by simp
qed

lemma run_inv_step:
  assumes "run_inv r"
  shows "run_inv (run_step e r)"
proof (cases e)
  case Trigger
  with assms show ?thesis
    by (simp only: armed_run_inv [OF trigger_armed])
next
  case (Wait dt)
  from assms consider "timers (run_loop r) = []"
    | x where "timers (run_loop r) = [x]" "timeoutId (run_wrapper r) = Some (timer_id x)"
    by (auto simp: run_inv_def)
  then show ?thesis
  proof cases
    case 1
    with Wait show ?thesis
      by (simp add: run_inv_def take_due_def)
  next
    case 2
    with Wait show ?thesis
      by (simp add: run_inv_def take_due_def)
  qed
qed

lemma run_inv_events:
  assumes "run_inv r"
  shows "run_inv (run_events evs r)"
  using assms by (induction evs arbitrary: r) (simp_all add: run_inv_step)

lemma run_inv_pending:
  assumes "run_inv r"
  shows "length (timers (run_loop r)) \<le> 1"
  using assms by (auto simp: run_inv_def)

lemma run_events_append: "run_events (es @ fs) r = run_events fs (run_events es r)"
  by (induction es arbitrary: r) simp_all

lemma burst_armed:
  assumes "run_inv r" and "\<forall>g \<in> set gaps. g < ms (run_wrapper r)"
  shows "armed (run_events (burst gaps) r)
       \<and> now (run_loop (run_events (burst gaps) r)) = now (run_loop r) + sum_list gaps
       \<and> run_calls (run_events (burst gaps) r) = run_calls r
       \<and> ms (run_wrapper (run_events (burst gaps) r)) = ms (run_wrapper r)
       \<and> fn (run_wrapper (run_events (burst gaps) r)) = fn (run_wrapper r)"
  using assms
proof (induction gaps arbitrary: r)
  case Nil
  then show ?case
    by (simp add: trigger_armed trigger_keeps del: run_step.simps)
next
  case (Cons g gs)
  define r1 where "r1 = run_step Trigger r"
  define r2 where "r2 = run_step (Wait g) r1"
  have a1: "armed r1"
    unfolding r1_def using Cons.prems(1) by (rule trigger_armed)
  have k1: "now (run_loop r1) = now (run_loop r)" "run_calls r1 = run_calls r"
    "ms (run_wrapper r1) = ms (run_wrapper r)" "fn (run_wrapper r1) = fn (run_wrapper r)"
    unfolding r1_def by (rule trigger_keeps)+
  have g: "g < ms (run_wrapper r1)"
    using Cons.prems(2) k1(3) by simp
  have i2: "run_inv r2" and c2: "run_calls r2 = run_calls r1"
    unfolding r2_def using wait_early [OF a1 g] by simp_all
  have k2: "now (run_loop r2) = now (run_loop r1) + g" "run_wrapper r2 = run_wrapper r1"
    unfolding r2_def by (rule wait_keeps)+
  have gs: "\<forall>g \<in> set gs. g < ms (run_wrapper r2)"
    using Cons.prems(2) k1(3) k2(2) by simp
  have "run_events (burst (g # gs)) r = run_events (burst gs) r2"
    by (simp add: r1_def r2_def del: run_step.simps)
  with Cons.IH [OF i2 gs] k1 k2 c2 show ?case
    by (simp add: add.assoc)
qed


lemma start_fields:
  "now (run_loop (run_start f delay t0)) = t0"
  "run_calls (run_start f delay t0) = []"
  "ms (run_wrapper (run_start f (Some T) t0)) = T"
  "fn (run_wrapper (run_start f delay t0)) = f"
  by (simp_all add: run_start_def debounce_def)

lemma run_events_wrapper:
  "ms (run_wrapper (run_events evs r)) = ms (run_wrapper r)
   \<and> fn (run_wrapper (run_events evs r)) = fn (run_wrapper r)"
proof (induction evs arbitrary: r)
  case Nil
  show ?case by simp
next
  case (Cons e evs)
  have "ms (run_wrapper (run_step e r)) = ms (run_wrapper r)
      \<and> fn (run_wrapper (run_step e r)) = fn (run_wrapper r)"
    by (cases e) (simp_all add: trigger_keeps wait_keeps del: run_step.simps)
  with Cons.IH [of "run_step e r"] show ?case
    by (simp del: run_step.simps)
qed

text \<open>
  C8. Let a debounced function with quiet period \<open>T\<close> be in any state \<open>r\<close> that events
  and time can have brought it to, and let a burst of events reach it (every gap between
  consecutive events below \<open>T\<close>). Nothing is invoked during the burst, nor within less
  than \<open>T\<close> after its last event; once \<open>T\<close> has passed the wrapped function has been
  invoked exactly once more, at \<open>T\<close> after the last event, and however much more time
  passes it is not invoked again. After the last event of the burst the one pending
  timer is due \<open>T\<close> after that event (each event has reset it), and at every moment at
  most one timer of the wrapper is pending. The page wraps \<open>checkScroll\<close> with \<open>T = 50\<close>
  for scroll and \<open>T = 100\<close> for resize.
\<close>

theorem debounce_burst:
  assumes "r = run_events before (run_start f (Some T) t0)"
    and "\<forall>g \<in> set gaps. g < T" and "T \<le> w"
  shows "run_calls (run_events (burst gaps) r) = run_calls r
       \<and> (\<forall>w' < T. run_calls (run_events (burst gaps @ [Wait w']) r) = run_calls r)
       \<and> (\<forall>ws. run_calls (run_events (burst gaps @ Wait w # map Wait ws) r)
                 = run_calls r @ [(now (run_loop r) + sum_list gaps + T, f)])
       \<and> map due (timers (run_loop (run_events (burst gaps) r)))
            = [now (run_loop r) + sum_list gaps + T]
       \<and> length (timers (run_loop r)) \<le> 1
       \<and> debouncedScroll (mount g) = debounce CheckScrollCallback (Some 50)
       \<and> debouncedResize (mount g) = debounce CheckScrollCallback (Some 100)
       \<and> ms (debouncedScroll (mount g)) = 50
       \<and> ms (debouncedResize (mount g)) = 100"
proof -
  define r' where "r' = run_events (burst gaps) r"
  have inv: "run_inv r"
    unfolding assms(1) by (rule run_inv_events [OF run_inv_start])
  have ms0: "ms (run_wrapper r) = T" and fn0: "fn (run_wrapper r) = f"
    unfolding assms(1) using run_events_wrapper [of before "run_start f (Some T) t0"]
    by (simp_all add: start_fields)
  have gaps: "\<forall>g \<in> set gaps. g < ms (run_wrapper r)"
    using assms(2) by (simp add: ms0)
  from burst_armed [OF inv gaps]
  have armed: "armed r'"
    and now: "now (run_loop r') = now (run_loop r) + sum_list gaps"
    and calls: "run_calls r' = run_calls r"
    and ms: "ms (run_wrapper r') = T"
    and fn: "fn (run_wrapper r') = f"
    unfolding r'_def by (simp_all add: ms0 fn0)
  have early: "\<forall>w' < T. run_calls (run_events (burst gaps @ [Wait w']) r) = run_calls r"
  proof (intro allI impI)
    fix w'
    assume "w' < T"
    then have "w' < ms (run_wrapper r')"
      by (simp add: ms)
    from wait_early(2) [OF armed this] calls
    show "run_calls (run_events (burst gaps @ [Wait w']) r) = run_calls r"
      by (simp add: run_events_append r'_def del: run_step.simps)
  qed
  have late: "\<forall>ws. run_calls (run_events (burst gaps @ Wait w # map Wait ws) r)
                 = run_calls r @ [(now (run_loop r) + sum_list gaps + T, f)]"
  proof
    fix ws
    have "ms (run_wrapper r') \<le> w"
      using assms(3) by (simp add: ms)
    from wait_late [OF armed this]
    have fired: "run_calls (run_step (Wait w) r')
                   = run_calls r @ [(now (run_loop r) + sum_list gaps + T, f)]"
      and idle: "timers (run_loop (run_step (Wait w) r')) = []"
      by (simp_all add: calls now ms fn)
    from idle_waits [OF idle, of ws] fired
    show "run_calls (run_events (burst gaps @ Wait w # map Wait ws) r)
            = run_calls r @ [(now (run_loop r) + sum_list gaps + T, f)]"
      by (simp add: run_events_append r'_def del: run_step.simps)
  qed
  have pending: "map due (timers (run_loop r')) = [now (run_loop r) + sum_list gaps + T]"
    using armed by (auto simp: armed_def now ms)
  have one: "length (timers (run_loop r)) \<le> 1"
    by (rule run_inv_pending [OF inv])
  have page: "debouncedScroll (mount g) = debounce CheckScrollCallback (Some 50)"
    "debouncedResize (mount g) = debounce CheckScrollCallback (Some 100)"
    "ms (debouncedScroll (mount g)) = 50" "ms (debouncedResize (mount g)) = 100"
    by (simp_all add: mount_def setTimeout_def debounce_def)
  from calls early late pending one page show ?thesis
    unfolding r'_def by (intro conjI)
qed

lemmas run_eval =
  run_start_def debounce_def call_debounced_def setTimeout_def clearTimeout_def take_due_def
  Let_def

theorem debounce_burst_witness:
  "run_calls (run_events (burst [10, 20, 49] @ [Wait 50])
      (run_events [Trigger, Wait 30] (run_start CheckScrollCallback (Some 50) 0)))
     = [(159, CheckScrollCallback)]
   \<and> run_calls (run_events (burst [10, 20, 49] @ [Wait 49])
      (run_events [Trigger, Wait 30] (run_start CheckScrollCallback (Some 50) 0)))
     = []"
proof -
  define r where "r = run_events [Trigger, Wait 30] (run_start CheckScrollCallback (Some 50) 0)"
  have gaps: "\<forall>g \<in> set [10, 20, 49]. g < (50::nat)"
    by simp
  have w: "(50::nat) \<le> 50"
    by simp
  have r_now: "now (run_loop r) = 30" and r_calls: "run_calls r = []"
    unfolding r_def by (simp_all add: run_eval)
  note b = debounce_burst [OF r_def gaps w, of example_layout]
  from b have "\<forall>ws. run_calls (run_events (burst [10, 20, 49] @ Wait 50 # map Wait ws) r)
      = run_calls r @ [(now (run_loop r) + sum_list [10, 20, 49] + 50, CheckScrollCallback)]"
    by blast
  then have "run_calls (run_events (burst [10, 20, 49] @ Wait 50 # map Wait []) r)
      = run_calls r @ [(now (run_loop r) + sum_list [10, 20, 49] + 50, CheckScrollCallback)]"
    by (rule spec)
  then have one: "run_calls (run_events (burst [10, 20, 49] @ [Wait 50]) r)
      = [(159, CheckScrollCallback)]"
    by (simp add: r_now r_calls del: run_events.simps run_step.simps burst.simps)
  from b have "\<forall>w' < 50. run_calls (run_events (burst [10, 20, 49] @ [Wait w']) r) = run_calls r"
    by blast
  then have none: "run_calls (run_events (burst [10, 20, 49] @ [Wait 49]) r) = []"
    by (simp add: r_calls)
  from one none show ?thesis
    unfolding r_def by (rule conjI)
qed

subsection \<open>The floating call-to-action\<close>

lemma checkScroll_fields:
  "documentElement (checkScroll s) = documentElement s"
  "page_loop (checkScroll s) = page_loop s"
  "debouncedScroll (checkScroll s) = debouncedScroll s"
  "debouncedResize (checkScroll s) = debouncedResize s"
  "isInitialized (checkScroll s) = isInitialized s"
  "measured (checkScroll s) = Some (documentElement s)"
  "isScrolled (checkScroll s) = thresholds (documentElement s)"
  by (simp_all add: checkScroll_def Let_def thresholds_def hasScrollableContent_def hasScrolled_def)

lemma run_callback_fields:
  "documentElement (run_callback s x) = documentElement s"
  "page_loop (run_callback s x) = page_loop s"
  "debouncedScroll (run_callback s x) = debouncedScroll s"
  "debouncedResize (run_callback s x) = debouncedResize s"
  "measured (run_callback s x) = Some (documentElement s)"
  "isScrolled (run_callback s x) = thresholds (documentElement s)"
  "isInitialized (run_callback s x) = (isInitialized s \<or> callback x = InitCallback)"
  by (simp_all add: checkScroll_fields split: page_callback.splits)

declare run_callback.simps [simp del]

lemma foldl_run_callback_fields:
  "documentElement (foldl run_callback s xs) = documentElement s"
  "page_loop (foldl run_callback s xs) = page_loop s"
  "debouncedScroll (foldl run_callback s xs) = debouncedScroll s"
  "debouncedResize (foldl run_callback s xs) = debouncedResize s"
  by (induction xs rule: rev_induct) (simp_all add: run_callback_fields)

lemma foldl_run_callback_initialized:
  "isInitialized (foldl run_callback s xs)
     = (isInitialized s \<or> (\<exists>x \<in> set xs. callback x = InitCallback))"
  by (induction xs rule: rev_induct) (auto simp: run_callback_fields)

lemma foldl_run_callback_measured:
  assumes "xs \<noteq> []"
  shows "measured (foldl run_callback s xs) = Some (documentElement s)"
    and "isScrolled (foldl run_callback s xs) = thresholds (documentElement s)"
  using assms
  by (induction xs rule: rev_induct)
    (simp_all add: run_callback_fields foldl_run_callback_fields)

lemma foldl_run_callback_unmeasured:
  "measured (foldl run_callback s []) = measured s"
  "isScrolled (foldl run_callback s []) = isScrolled s"
  by simp_all


lemma elapse_fields:
  "page_loop (tracker_step (Elapse dt) s)
     = (page_loop s)\<lparr>now := now (page_loop s) + dt,
          timers := filter (\<lambda>x. \<not> due x \<le> now (page_loop s) + dt) (timers (page_loop s))\<rparr>"
  "documentElement (tracker_step (Elapse dt) s) = documentElement s"
  "debouncedScroll (tracker_step (Elapse dt) s) = debouncedScroll s"
  "debouncedResize (tracker_step (Elapse dt) s) = debouncedResize s"
  "isInitialized (tracker_step (Elapse dt) s)
     = (isInitialized s \<or>
        (\<exists>x \<in> set (timers (page_loop s)). due x \<le> now (page_loop s) + dt \<and> callback x = InitCallback))"
  by (auto simp: take_due_def foldl_run_callback_fields foldl_run_callback_initialized)

lemma elapse_none_due:
  assumes "filter (\<lambda>x. due x \<le> now (page_loop s) + dt) (timers (page_loop s)) = []"
  shows "measured (tracker_step (Elapse dt) s) = measured s"
    and "isScrolled (tracker_step (Elapse dt) s) = isScrolled s"
    and "timers (page_loop (tracker_step (Elapse dt) s)) = timers (page_loop s)"
proof -
  from assms have keep: "filter (\<lambda>x. \<not> due x \<le> now (page_loop s) + dt) (timers (page_loop s))
      = timers (page_loop s)"
    by (simp add: filter_empty_conv filter_id_conv)
  show "measured (tracker_step (Elapse dt) s) = measured s"
    and "isScrolled (tracker_step (Elapse dt) s) = isScrolled s"
    using assms by (simp_all add: take_due_def)
  show "timers (page_loop (tracker_step (Elapse dt) s)) = timers (page_loop s)"
    using keep by (simp add: elapse_fields del: tracker_step.simps)
qed

lemma elapse_some_due:
  assumes "filter (\<lambda>x. due x \<le> now (page_loop s) + dt) (timers (page_loop s)) \<noteq> []"
  shows "measured (tracker_step (Elapse dt) s) = Some (documentElement s)"
    and "isScrolled (tracker_step (Elapse dt) s) = thresholds (documentElement s)"
proof -
  from assms
  have ne: "sort_key due (filter (\<lambda>x. due x \<le> now (page_loop s) + dt) (timers (page_loop s))) \<noteq> []"
    by (metis length_sort length_0_conv)
  show "measured (tracker_step (Elapse dt) s) = Some (documentElement s)"
    and "isScrolled (tracker_step (Elapse dt) s) = thresholds (documentElement s)"
    using foldl_run_callback_measured [OF ne] by (simp_all add: take_due_def)
qed

lemma inv_measured_step:
  assumes "inv_measured s"
  shows "inv_measured (tracker_step e s)"
proof (cases e)
  case (Scroll y)
  with assms show ?thesis
    by (simp add: inv_measured_def split: prod.splits)
next
  case (Resize ch sh)
  with assms show ?thesis
    by (simp add: inv_measured_def split: prod.splits)
next
  case (Elapse dt)
  show ?thesis
  proof (cases "filter (\<lambda>x. due x \<le> now (page_loop s) + dt) (timers (page_loop s)) = []")
    case True
    with assms Elapse show ?thesis
      by (simp add: inv_measured_def elapse_none_due del: tracker_step.simps)
  next
    case False
    with Elapse show ?thesis
      by (simp add: inv_measured_def elapse_some_due del: tracker_step.simps)
  qed
qed

lemma call_debounced_timers:
  "timers (snd (call_debounced d el)) \<noteq> []"
  by (simp add: call_debounced_def setTimeout_def Let_def)

lemma inv_fresh_step:
  assumes "inv_fresh s"
  shows "inv_fresh (tracker_step e s)"
proof (cases e)
  case (Scroll y)
  then show ?thesis
    using call_debounced_timers [of "debouncedScroll s" "page_loop s"]
    by (auto simp: inv_fresh_def split: prod.splits)
next
  case (Resize ch sh)
  then show ?thesis
    using call_debounced_timers [of "debouncedResize s" "page_loop s"]
    by (auto simp: inv_fresh_def split: prod.splits)
next
  case (Elapse dt)
  show ?thesis
  proof (cases "filter (\<lambda>x. due x \<le> now (page_loop s) + dt) (timers (page_loop s)) = []")
    case True
    with assms Elapse show ?thesis
      by (simp add: inv_fresh_def elapse_none_due elapse_fields(2) del: tracker_step.simps)
  next
    case False
    with Elapse show ?thesis
      by (simp add: inv_fresh_def elapse_some_due elapse_fields(2) del: tracker_step.simps)
  qed
qed

lemma inv_init_debounced:
  assumes "inv_init s"
    and "\<forall>i. timeoutId d = Some i \<longrightarrow> 2 \<le> i"
    and "fn d = CheckScrollCallback"
    and "call_debounced d (page_loop s) = (d', el)"
  shows "(isInitialized s \<longrightarrow> 100 \<le> now el)
      \<and> (isInitialized s \<or> (\<exists>x \<in> set (timers el). callback x = InitCallback))
      \<and> (\<forall>x \<in> set (timers el). callback x = InitCallback \<longrightarrow> timer_id x = 1 \<and> 100 \<le> due x)
      \<and> 2 \<le> next_id el
      \<and> (\<forall>i. timeoutId d' = Some i \<longrightarrow> 2 \<le> i)
      \<and> fn d' = CheckScrollCallback"
  using assms
  by (auto simp: inv_init_def call_debounced_def setTimeout_def clearTimeout_def Let_def
      split: option.splits)


lemma inv_init_step:
  assumes "inv_init s"
  shows "inv_init (tracker_step e s)"
proof (cases e)
  case (Scroll y)
  obtain d' el where c: "call_debounced (debouncedScroll s) (page_loop s) = (d', el)"
    by (cases "call_debounced (debouncedScroll s) (page_loop s)")
  from assms have "\<forall>i. timeoutId (debouncedScroll s) = Some i \<longrightarrow> 2 \<le> i"
    and "fn (debouncedScroll s) = CheckScrollCallback"
    by (simp_all add: inv_init_def)
  from inv_init_debounced [OF assms this c] assms Scroll c show ?thesis
    by (simp add: inv_init_def)
next
  case (Resize ch sh)
  obtain d' el where c: "call_debounced (debouncedResize s) (page_loop s) = (d', el)"
    by (cases "call_debounced (debouncedResize s) (page_loop s)")
  from assms have "\<forall>i. timeoutId (debouncedResize s) = Some i \<longrightarrow> 2 \<le> i"
    and "fn (debouncedResize s) = CheckScrollCallback"
    by (simp_all add: inv_init_def)
  from inv_init_debounced [OF assms this c] assms Resize c show ?thesis
    by (simp add: inv_init_def)
next
  case (Elapse dt)
  from assms show ?thesis
    unfolding Elapse inv_init_def elapse_fields
    apply (simp del: tracker_step.simps)
    apply (elim conjE)
    apply (intro conjI impI)
      apply linarith
     apply (fastforce intro: le_trans)
    apply blast
    done
qed


lemma inv_mount: "inv_measured (mount g)" "inv_fresh (mount g)" "inv_init (mount g)"
  by (simp_all add: inv_measured_def inv_fresh_def inv_init_def mount_def setTimeout_def debounce_def)

lemma inv_run:
  assumes "inv_measured s" and "inv_fresh s" and "inv_init s"
  shows "inv_measured (tracker_run evs s) \<and> inv_fresh (tracker_run evs s) \<and> inv_init (tracker_run evs s)"
  using assms
proof (induction evs arbitrary: s)
  case Nil
  then show ?case by simp
next
  case (Cons e evs)
  from Cons.prems have "inv_measured (tracker_step e s)" "inv_fresh (tracker_step e s)"
    "inv_init (tracker_step e s)"
    by (simp_all only: inv_measured_step inv_fresh_step inv_init_step)
  from Cons.IH [OF this] show ?case
    by (simp del: tracker_step.simps)
qed

text \<open>
  C5, amended. In every state the page reaches, the call-to-action is visible exactly
  when \<open>isInitialized\<close> is set and both thresholds held at the last run of \<open>checkScroll\<close>;
  \<open>isInitialized\<close> is set only once 100 ms have passed since mount; and whenever no
  timer is pending the last measurement is of the present layout, so that there the
  call-to-action is visible exactly when initialized with both thresholds exceeded now.
\<close>

theorem cta_visible_reachable:
  assumes "s = tracker_run evs (mount g)"
  shows "(cta_visible s \<longleftrightarrow>
            isInitialized s \<and>
            (\<exists>m. measured s = Some m \<and> scrollHeight m > clientHeight m + 10 \<and> scrollTop m > 5))
       \<and> (isInitialized s \<longrightarrow> 100 \<le> now (page_loop s))
       \<and> (timers (page_loop s) = [] \<longrightarrow>
            measured s = Some (documentElement s) \<and>
            (cta_visible s \<longleftrightarrow>
               isInitialized s \<and>
               scrollHeight (documentElement s) > clientHeight (documentElement s) + 10 \<and>
               scrollTop (documentElement s) > 5))"
proof -
  from inv_run [OF inv_mount, of evs g] assms
  have m: "inv_measured s" and f: "inv_fresh s" and i: "inv_init s"
    by simp_all
  from m have vis: "cta_visible s \<longleftrightarrow>
            isInitialized s \<and>
            (\<exists>m. measured s = Some m \<and> scrollHeight m > clientHeight m + 10 \<and> scrollTop m > 5)"
    by (auto simp: cta_visible_def inv_measured_def thresholds_def split: option.splits)
  from i have late: "isInitialized s \<longrightarrow> 100 \<le> now (page_loop s)"
    by (simp add: inv_init_def)
  from f have quiet: "timers (page_loop s) = [] \<longrightarrow> measured s = Some (documentElement s)"
    by (auto simp: inv_fresh_def)
  from vis quiet have "timers (page_loop s) = [] \<longrightarrow>
            (cta_visible s \<longleftrightarrow>
               isInitialized s \<and>
               scrollHeight (documentElement s) > clientHeight (documentElement s) + 10 \<and>
               scrollTop (documentElement s) > 5)"
    by auto
  with vis late quiet show ?thesis
    by blast
qed


lemmas tracker_eval =
  mount_def setTimeout_def clearTimeout_def call_debounced_def take_due_def debounce_def
  run_callback.simps checkScroll_def example_layout_def cta_visible_def hasScrolled_def
  hasScrollableContent_def Let_def

text \<open>
  C5, as stated, fails while a debounced measurement is pending: the user scrolls down,
  the call-to-action appears, the user scrolls back to the top, and for the next 50 ms
  it is still visible with \<open>scrollTop = 0\<close>.
\<close>

theorem cta_visible_counterexample:
  "cta_visible (tracker_run [Scroll 100, Elapse 100, Scroll 0] (mount example_layout))
   \<and> isInitialized (tracker_run [Scroll 100, Elapse 100, Scroll 0] (mount example_layout))
   \<and> \<not> scrollTop (documentElement (tracker_run [Scroll 100, Elapse 100, Scroll 0] (mount example_layout))) > 5"
  by (simp add: tracker_eval)

theorem cta_visible_reachable_witness:
  "timers (page_loop (tracker_run [Scroll 100, Elapse 100, Scroll 0, Elapse 50] (mount example_layout))) = []
   \<and> \<not> cta_visible (tracker_run [Scroll 100, Elapse 100, Scroll 0, Elapse 50] (mount example_layout))
   \<and> cta_visible (tracker_run [Scroll 100, Elapse 100] (mount example_layout))"
proof -
  have a: "timers (page_loop (tracker_run [Scroll 100, Elapse 100, Scroll 0, Elapse 50] (mount example_layout))) = []"
    by (simp add: tracker_eval)
  have b: "\<not> scrollTop (documentElement (tracker_run [Scroll 100, Elapse 100, Scroll 0, Elapse 50] (mount example_layout))) > 5"
    by (simp add: tracker_eval)
  have c: "timers (page_loop (tracker_run [Scroll 100, Elapse 100] (mount example_layout))) = []"
    by (simp add: tracker_eval)
  have d: "isInitialized (tracker_run [Scroll 100, Elapse 100] (mount example_layout))
    \<and> scrollHeight (documentElement (tracker_run [Scroll 100, Elapse 100] (mount example_layout)))
        > clientHeight (documentElement (tracker_run [Scroll 100, Elapse 100] (mount example_layout))) + 10
    \<and> scrollTop (documentElement (tracker_run [Scroll 100, Elapse 100] (mount example_layout))) > 5"
    by (simp add: tracker_eval)
  show ?thesis
    using a b c d
      cta_visible_reachable [OF refl, of "[Scroll 100, Elapse 100, Scroll 0, Elapse 50]" example_layout]
      cta_visible_reachable [OF refl, of "[Scroll 100, Elapse 100]" example_layout]
    by blast
qed

end
